theory Spec2Isabelle
  imports Complex_Main "HOL-Library.AList"
begin

section \<open>Service health dashboard (src/src/App.jsx)\<close>

text \<open>
  The component \<^verbatim>\<open>App\<close> polls two endpoints every five seconds, classifies every
  service event as healthy or stale, raises toasts, and groups the events by service
  name for rendering. The decision logic is embedded below, function by function, with
  the clock, the HTTP responses and the React state made explicit arguments.
\<close>

subsection \<open>Time: the part of dayjs that \<^verbatim>\<open>isHealthy\<close> uses\<close>

text \<open>
  dayjs is a third-party library and not part of the repository. Three facts about it
  are used, as its documentation and source give them:
  \<^item> a dayjs object wraps a JavaScript \<^verbatim>\<open>Date\<close>, whose time value is an integral number
    of milliseconds since the epoch, or \<^verbatim>\<open>NaN\<close> when the input could not be parsed
    (``Invalid Date'');
  \<^item> \<^verbatim>\<open>a.diff(b, "second")\<close> computes \<^verbatim>\<open>(a - b) / 1000\<close> and, the third argument
    \<^verbatim>\<open>float\<close> being absent, truncates it towards zero with
    \<^verbatim>\<open>absFloor = n => (n < 0 ? Math.ceil(n) || 0 : Math.floor(n))\<close>;
  \<^item> arithmetic on \<^verbatim>\<open>NaN\<close> gives \<^verbatim>\<open>NaN\<close>, and \<^verbatim>\<open>NaN <= 25\<close> is false.

  Time values are integers of magnitude at most \<open>8.64 * 10^15\<close>, so the millisecond
  difference is modelled in \<open>int\<close>; the quotient by 1000 is never within rounding
  distance of an integer it does not equal, so truncating the exact quotient agrees
  with truncating the floating-point one.
\<close>

datatype dayjs = Valid int | Invalid_Date

text \<open>\<^verbatim>\<open>absFloor\<close> applied to the quotient \<open>n / d\<close> for a positive \<open>d\<close>.\<close>

definition absFloor :: "int \<Rightarrow> int \<Rightarrow> int" where
  "absFloor n d = (if n < 0 then - ((- n) div d) else n div d)"

text \<open>\<^verbatim>\<open>now.diff(timestamp, "second")\<close>; \<open>None\<close> stands for \<^verbatim>\<open>NaN\<close>.\<close>

definition diff_second :: "int \<Rightarrow> dayjs \<Rightarrow> int option" where
  "diff_second now timestamp =
     (case timestamp of
        Invalid_Date \<Rightarrow> None
      | Valid t \<Rightarrow> Some (absFloor (now - t) 1000))"

subsection \<open>Data\<close>

text \<open>
  One element of the events payload, \<^verbatim>\<open>{ name, type, date }\<close>. The field \<open>date\<close> holds
  what \<^verbatim>\<open>dayjs(item.date)\<close> evaluates to: the instant the string denotes, or
  \<open>Invalid_Date\<close> for a string that does not parse.
\<close>

record service_event =
  name :: string
  type :: string
  date :: dayjs

text \<open>
  \<^verbatim>\<open>response.data\<close> of the events request: a JSON array of events, or any other JSON
  value, on which \<^verbatim>\<open>.some\<close> and \<^verbatim>\<open>.forEach\<close> are not functions.
\<close>

datatype payload = Array "service_event list" | NonArray

record system_info =
  cpu_total :: real
  mem_percent :: real

text \<open>The three \<^verbatim>\<open>useState\<close> cells of \<^verbatim>\<open>App\<close>.\<close>

record app_state =
  data :: payload
  systemInfo :: system_info
  showConfetti :: bool

text \<open>The initial values passed to \<^verbatim>\<open>useState\<close>: the state of the first render.\<close>

definition App_initial :: app_state where
  "App_initial =
     \<lparr> data = Array [],
       systemInfo = \<lparr> cpu_total = 0, mem_percent = 0 \<rparr>,
       showConfetti = False \<rparr>"

text \<open>The outcome of \<^verbatim>\<open>await axios.get(...)\<close>: the promise rejects or resolves.\<close>

datatype 'a response = Rejected | Resolved 'a

text \<open>
  What a call makes visible besides the state: \<^verbatim>\<open>toast.error\<close> (the alert signal),
  \<^verbatim>\<open>toast.success\<close> (the celebrate signal) and \<^verbatim>\<open>console.error\<close>.
\<close>

datatype effect = toast_error | toast_success | console_error

subsection \<open>\<^verbatim>\<open>isHealthy\<close>\<close>

text \<open>
  \<^verbatim>\<open>
  const isHealthy = (dateStr) => {
    const now = dayjs();
    const timestamp = dayjs(dateStr);
    return now.diff(timestamp, "second") <= 25;
  };
  \<close>
  The clock read \<^verbatim>\<open>dayjs()\<close> is the argument \<open>now\<close>, in milliseconds.
\<close>

definition isHealthy :: "int \<Rightarrow> dayjs \<Rightarrow> bool" where
  "isHealthy now timestamp =
     (case diff_second now timestamp of
        None \<Rightarrow> False
      | Some s \<Rightarrow> s \<le> 25)"

subsection \<open>\<^verbatim>\<open>fetchData\<close> and \<^verbatim>\<open>fetchSystemInfo\<close>\<close>

text \<open>
  \<^verbatim>\<open>response.data.some((item) => !isHealthy(item.date))\<close>, all items classified at the
  instant \<open>now\<close> of the poll.
\<close>

definition hasUnhealthy :: "int \<Rightarrow> service_event list \<Rightarrow> bool" where
  "hasUnhealthy now items = list_ex (\<lambda>item. \<not> isHealthy now (date item)) items"

text \<open>
  \<^verbatim>\<open>fetchData\<close> is a closure created by a render of \<^verbatim>\<open>App\<close>. Its free variable
  \<^verbatim>\<open>showConfetti\<close> is the constant of that render, here the first argument; the setters
  \<^verbatim>\<open>setData\<close> and \<^verbatim>\<open>setShowConfetti\<close> write the current state, here passed and
  returned. A rejected request jumps to the \<^verbatim>\<open>catch\<close> block before any setter; a
  payload that is not an array is stored by \<^verbatim>\<open>setData\<close> and then \<^verbatim>\<open>.some\<close> throws
  into the same \<^verbatim>\<open>catch\<close> block.
\<close>

definition fetchData ::
  "bool \<Rightarrow> int \<Rightarrow> payload response \<Rightarrow> app_state \<Rightarrow> app_state \<times> effect list" where
  "fetchData showConfetti_closure now resp st =
     (case resp of
        Rejected \<Rightarrow> (st, [console_error])
      | Resolved response_data \<Rightarrow>
          (let st1 = st\<lparr>data := response_data\<rparr> in
           case response_data of
             NonArray \<Rightarrow> (st1, [console_error])
           | Array items \<Rightarrow>
               if hasUnhealthy now items
               then (st1\<lparr>showConfetti := False\<rparr>, [toast_error])
               else if \<not> showConfetti_closure
                    then (st1\<lparr>showConfetti := True\<rparr>, [toast_success])
                    else (st1, [])))"


text \<open>
  \<^verbatim>\<open>
  useEffect(() => {
    fetchData(); fetchSystemInfo();
    const interval = setInterval(() => { fetchData(); fetchSystemInfo(); }, 5000);
    return () => clearInterval(interval);
  }, []);
  \<close>
  Every render of \<^verbatim>\<open>App\<close> creates a new \<^verbatim>\<open>fetchData\<close>, closed over the state that
  render displays: \<open>render_fetchData\<close>. The dependency list of the effect is empty, so
  the effect runs once, after the first render, and the \<^verbatim>\<open>fetchData\<close> it calls at mount
  and from the interval callback is the closure of that first render: its
  \<^verbatim>\<open>showConfetti\<close> is the initial value for the whole life of the component, whatever
  the state has become. The closures of later renders are never called.
\<close>

definition render_fetchData ::
  "app_state \<Rightarrow> int \<Rightarrow> payload response \<Rightarrow> app_state \<Rightarrow> app_state \<times> effect list" where
  "render_fetchData rendered = fetchData (showConfetti rendered)"

definition interval_fetchData ::
  "int \<Rightarrow> payload response \<Rightarrow> app_state \<Rightarrow> app_state \<times> effect list" where
  "interval_fetchData = render_fetchData App_initial"

text \<open>
  A run of the component: the successive events polls, each with its instant and the
  outcome of its request, applied to the state in order; the effects are collected.
\<close>

fun polls :: "(int \<times> payload response) list \<Rightarrow> app_state \<Rightarrow> app_state \<times> effect list" where
  "polls [] st = (st, [])"
| "polls ((now, resp) # rest) st =
     (let (st1, out1) = interval_fetchData now resp st;
          (st2, out2) = polls rest st1
      in (st2, out1 @ out2))"

text \<open>
  The health classifications shown are derived from the stored events at render time
  (\<^verbatim>\<open>StatusCard\<close> calls \<^verbatim>\<open>isHealthy(date)\<close>); \<^verbatim>\<open>.map\<close> on a stored value that is not an
  array throws.
\<close>

definition classifications :: "int \<Rightarrow> app_state \<Rightarrow> bool list option" where
  "classifications now st =
     (case data st of
        NonArray \<Rightarrow> None
      | Array items \<Rightarrow> Some (map (\<lambda>item. isHealthy now (date item)) items))"

subsection \<open>\<^verbatim>\<open>groupByName\<close>\<close>

text \<open>
  \<^verbatim>\<open>
  const groupByName = () => {
    const groups = {};
    data.forEach((item) => {
      if (!groups[item.name]) {
        groups[item.name] = [];
      }
      groups[item.name].push(item);
    });
    return groups;
  };
  \<close>
  \<^verbatim>\<open>groups\<close> is a plain object. Its own properties are kept as an association list in
  creation order: assigning to an existing key keeps the key's place, assigning to a
  new key appends it, which is what \<open>AList.update\<close> does. Its prototype is
  \<^verbatim>\<open>Object.prototype\<close>, so reading a key that is not an own property finds the
  inherited member of that name when there is one.
\<close>

datatype js_error = TypeError

type_synonym groups = "(string \<times> service_event list) list"

text \<open>The property names of \<^verbatim>\<open>Object.prototype\<close>.\<close>

definition Object_prototype :: "string list" where
  "Object_prototype =
     [''constructor'', ''__defineGetter__'', ''__defineSetter__'', ''hasOwnProperty'',
      ''__lookupGetter__'', ''__lookupSetter__'', ''isPrototypeOf'',
      ''propertyIsEnumerable'', ''toString'', ''valueOf'', ''__proto__'',
      ''toLocaleString'']"

text \<open>
  What \<^verbatim>\<open>groups[key]\<close> evaluates to: an array stored by the loop, an inherited
  member (a function, or \<^verbatim>\<open>Object.prototype\<close> itself for \<^verbatim>\<open>__proto__\<close>), or
  \<^verbatim>\<open>undefined\<close>.
\<close>

datatype property_value = undefined | array "service_event list" | inherited

definition get :: "groups \<Rightarrow> string \<Rightarrow> property_value" where
  "get groups key =
     (case map_of groups key of
        Some arr \<Rightarrow> array arr
      | None \<Rightarrow> if key \<in> set Object_prototype then inherited else undefined)"

text \<open>Arrays, functions and objects are truthy; \<^verbatim>\<open>undefined\<close> is falsy.\<close>

definition truthy :: "property_value \<Rightarrow> bool" where
  "truthy v = (v \<noteq> undefined)"

text \<open>
  The body of the \<^verbatim>\<open>forEach\<close> callback. \<^verbatim>\<open>.push\<close> exists on arrays only: calling it
  on an inherited member (or on \<^verbatim>\<open>undefined\<close>) throws a \<^verbatim>\<open>TypeError\<close>.
\<close>

definition callback :: "groups \<Rightarrow> service_event \<Rightarrow> js_error + groups" where
  "callback groups item =
     (let groups1 =
            (if \<not> truthy (get groups (name item))
             then AList.update (name item) [] groups
             else groups)
      in case get groups1 (name item) of
           array arr \<Rightarrow> Inr (AList.update (name item) (arr @ [item]) groups1)
         | inherited \<Rightarrow> Inl TypeError
         | undefined \<Rightarrow> Inl TypeError)"

fun forEach :: "service_event list \<Rightarrow> groups \<Rightarrow> js_error + groups" where
  "forEach [] groups = Inr groups"
| "forEach (item # rest) groups =
     (case callback groups item of
        Inl e \<Rightarrow> Inl e
      | Inr groups' \<Rightarrow> forEach rest groups')"

text \<open>
  \<^verbatim>\<open>groupByName\<close> reads the state cell \<^verbatim>\<open>data\<close>; \<^verbatim>\<open>.forEach\<close> on a value that is not an
  array throws.
\<close>

definition groupByName :: "app_state \<Rightarrow> js_error + groups" where
  "groupByName st =
     (case data st of
        NonArray \<Rightarrow> Inl TypeError
      | Array items \<Rightarrow> forEach items [])"

subsection \<open>\<^verbatim>\<open>Object.keys\<close>\<close>

text \<open>
  The order in which \<^verbatim>\<open>Object.keys(groupedData)\<close> lists the own string keys of an
  ordinary object (ECMAScript, OrdinaryOwnPropertyKeys): first the keys that are array
  indices, in ascending numeric order, then the other keys in creation order. An array
  index is the canonical decimal numeral of an integer from 0 to \<open>2^32 - 2\<close>.
\<close>

definition is_digit :: "char \<Rightarrow> bool" where
  "is_digit c = (c \<in> set ''0123456789'')"

definition digit_value :: "char \<Rightarrow> nat" where
  "digit_value c = of_char c - 48"

definition ToNumber :: "string \<Rightarrow> nat" where
  "ToNumber s = foldl (\<lambda>a c. 10 * a + digit_value c) 0 s"

definition is_array_index :: "string \<Rightarrow> bool" where
  "is_array_index s =
     (s \<noteq> [] \<and> list_all is_digit s \<and> (s = ''0'' \<or> hd s \<noteq> CHR ''0'')
      \<and> ToNumber s < 4294967295)"

definition Object_keys :: "groups \<Rightarrow> string list" where
  "Object_keys groups =
     sort_key ToNumber (filter is_array_index (map fst groups))
     @ filter (\<lambda>key. \<not> is_array_index key) (map fst groups)"

subsection \<open>Notions of the specification\<close>

text \<open>
  The distinct elements of a sequence in the order of their first appearance: the key
  order the specification states for the grouping.
\<close>

fun first_appearance :: "'a list \<Rightarrow> 'a list" where
  "first_appearance [] = []"
| "first_appearance (x # xs) = x # removeAll x (first_appearance xs)"

text \<open>The array a group holds, and the empty sequence where the object has no such key.\<close>

definition group_of :: "groups \<Rightarrow> string \<Rightarrow> service_event list" where
  "group_of groups key = (case map_of groups key of Some arr \<Rightarrow> arr | None \<Rightarrow> [])"

section \<open>Properties\<close>

subsection \<open>Health classification\<close>

lemma div_1000_le_25: "((d::int) div 1000 \<le> 25) = (d < 26000)"
proof -
  define q where "q = d div 1000"
  define r where "r = d mod 1000"
  have "d = 1000 * q + r" and "0 \<le> r" and "r < 1000"
    by (simp_all add: q_def r_def)
  then have "(q \<le> 25) = (d < 26000)" by linarith
  then show ?thesis by (simp add: q_def)
qed

lemma absFloor_1000_le_25: "(absFloor d 1000 \<le> 25) = (d < 26000)"
proof (cases "d < 0")
  case True
  then have "0 \<le> (- d) div 1000" by (simp add: pos_imp_zdiv_nonneg_iff)
  with True show ?thesis by (simp add: absFloor_def)
next
  case False
  then show ?thesis by (simp add: absFloor_def div_1000_le_25)
qed

lemma isHealthy_Valid: "isHealthy now (Valid t) = (now - t < 26000)"
  by (simp add: isHealthy_def diff_second_def absFloor_1000_le_25)

lemma isHealthy_Invalid_Date: "\<not> isHealthy now Invalid_Date"
  by (simp add: isHealthy_def diff_second_def)

lemma hasUnhealthy_iff:
  "hasUnhealthy now items = (\<exists>item \<in> set items. \<not> isHealthy now (date item))"
  by (simp add: hasUnhealthy_def list_ex_iff)

text \<open>
  Claim C3, as the code has it. \<^verbatim>\<open>diff(timestamp, "second")\<close> drops the fraction of a
  second before the comparison with 25, so \<open>isHealthy\<close> is true exactly when fewer than
  26 seconds (26000 ms) have elapsed: 25 s and 25.001 s are both healthy, 26 s is the
  first stale age.
\<close>

theorem isHealthy_iff_under_26_seconds:
  "isHealthy now (Valid t) = (now - t < 26 * 1000)
   \<and> isHealthy (t + 25000) (Valid t)
   \<and> isHealthy (t + 25001) (Valid t)
   \<and> \<not> isHealthy (t + 26000) (Valid t)"
  by (simp add: isHealthy_Valid)

text \<open>
  The claim C3 as stated, healthy if and only if at most 25 s have elapsed, fails at an
  age of 25.001 s: the event is classified healthy.
\<close>

theorem isHealthy_25001_ms_counterexample:
  "isHealthy 25001 (Valid 0) \<and> \<not> ((25001::int) - 0 \<le> 25 * 1000)"
  by (simp add: isHealthy_def diff_second_def absFloor_def)

text \<open>
  Claim C8: a timestamp strictly in the future is classified healthy, and a timestamp
  that does not parse is classified stale.
\<close>

theorem isHealthy_future_and_unparsable:
  "(now < t \<longrightarrow> isHealthy now (Valid t)) \<and> \<not> isHealthy now Invalid_Date"
  by (simp add: isHealthy_Valid isHealthy_Invalid_Date)

theorem isHealthy_future_and_unparsable_witness:
  "(0::int) < 60000 \<and> isHealthy 0 (Valid 60000) \<and> \<not> isHealthy 0 Invalid_Date"
  using isHealthy_future_and_unparsable [of 0 60000] by simp

subsection \<open>The events poll\<close>

text \<open>
  Both failures of a poll end in the same \<^verbatim>\<open>catch\<close> block, which logs
  \<^verbatim>\<open>Failed to fetch service data\<close>. When the request is rejected, the block is reached
  before any setter: the stored events, the classifications derived from them and the
  latch are unchanged, and neither toast is raised.
\<close>

lemma fetchData_rejected:
  "fetchData c now Rejected st = (st, [console_error])
   \<and> data (fst (fetchData c now Rejected st)) = data st
   \<and> classifications t (fst (fetchData c now Rejected st)) = classifications t st
   \<and> showConfetti (fst (fetchData c now Rejected st)) = showConfetti st
   \<and> toast_error \<notin> set (snd (fetchData c now Rejected st))
   \<and> toast_success \<notin> set (snd (fetchData c now Rejected st))"
  by (simp add: fetchData_def)

text \<open>
  When the request resolves with a payload that is not an array, \<^verbatim>\<open>setData\<close> has
  replaced the stored events before \<^verbatim>\<open>.some\<close> throws. The latch is unchanged and no
  toast is raised, but the store holds the payload, and rendering it throws again in
  \<open>groupByName\<close>.
\<close>

lemma fetchData_non_array:
  "fetchData c now (Resolved NonArray) st = (st\<lparr>data := NonArray\<rparr>, [console_error])"
  "showConfetti (fst (fetchData c now (Resolved NonArray) st)) = showConfetti st"
  "groupByName (st\<lparr>data := NonArray\<rparr>) = Inl TypeError"
  by (simp_all add: fetchData_def groupByName_def)

text \<open>
  Claim C4 asks that a poll whose events fetch fails leaves the stored events, their
  classifications and the latch unchanged and raises no toast. A poll at 5 s that
  resolves with a malformed payload, in a state that holds one healthy event and a
  true latch: the call logs the failure and raises no toast, the latch stays true, but
  the stored event is gone, there is no classification left, and \<open>groupByName\<close> throws
  on the new store.
\<close>

theorem interval_fetchData_malformed_payload_replaces_store:
  "interval_fetchData 5000 (Resolved NonArray)
     (App_initial\<lparr>data := Array [\<lparr>name = ''svc1'', type = ''A'', date = Valid 0\<rparr>],
                   showConfetti := True\<rparr>)
   = (App_initial\<lparr>data := NonArray, showConfetti := True\<rparr>, [console_error])
   \<and> data (App_initial\<lparr>data := NonArray, showConfetti := True\<rparr>)
       \<noteq> data (App_initial\<lparr>data := Array [\<lparr>name = ''svc1'', type = ''A'', date = Valid 0\<rparr>],
                             showConfetti := True\<rparr>)
   \<and> classifications 5000
        (App_initial\<lparr>data := Array [\<lparr>name = ''svc1'', type = ''A'', date = Valid 0\<rparr>],
                      showConfetti := True\<rparr>)
       = Some [True]
   \<and> classifications 5000 (App_initial\<lparr>data := NonArray, showConfetti := True\<rparr>) = None
   \<and> groupByName (App_initial\<lparr>data := NonArray, showConfetti := True\<rparr>) = Inl TypeError"
  by (simp add: interval_fetchData_def render_fetchData_def fetchData_def
      classifications_def groupByName_def isHealthy_Valid App_initial_def)

text \<open>
  Claim C2, as the code has it: a successful poll whose events contain at least one
  stale event raises the alert toast and sets the latch to false, whatever the latch
  was and whatever value the closure holds.
\<close>

theorem fetchData_stale_alerts:
  assumes "item \<in> set items" and "\<not> isHealthy now (date item)"
  shows "fetchData c now (Resolved (Array items)) st
           = (st\<lparr>data := Array items, showConfetti := False\<rparr>, [toast_error])"
proof -
  from assms have "hasUnhealthy now items"
    unfolding hasUnhealthy_iff by blast
  then show ?thesis by (simp add: fetchData_def)
qed

theorem fetchData_stale_alerts_witness:
  "fetchData True 60000
     (Resolved (Array [\<lparr>name = ''svc1'', type = ''A'', date = Valid 55000\<rparr>,
                       \<lparr>name = ''svc2'', type = ''B'', date = Valid 0\<rparr>]))
     (App_initial\<lparr>showConfetti := True\<rparr>)
   = (App_initial\<lparr>data := Array [\<lparr>name = ''svc1'', type = ''A'', date = Valid 55000\<rparr>,
                                   \<lparr>name = ''svc2'', type = ''B'', date = Valid 0\<rparr>],
                   showConfetti := False\<rparr>,
      [toast_error])"
proof -
  let ?stale = "\<lparr>name = ''svc2'', type = ''B'', date = Valid 0\<rparr>"
  let ?items = "[\<lparr>name = ''svc1'', type = ''A'', date = Valid 55000\<rparr>, ?stale]"
  have member: "?stale \<in> set ?items" by simp
  have stale: "\<not> isHealthy 60000 (date ?stale)" by (simp add: isHealthy_Valid)
  show ?thesis
    using fetchData_stale_alerts [OF member stale, of True "App_initial\<lparr>showConfetti := True\<rparr>"]
    by simp
qed

text \<open>
  The claim C2 as stated also promises an alert for an empty event set. On the empty
  array \<^verbatim>\<open>.some\<close> is false: no alert is raised and the latch is set to true.
\<close>

theorem fetchData_empty_counterexample:
  "toast_error \<notin> set (snd (fetchData False 0 (Resolved (Array [])) App_initial))
   \<and> showConfetti (fst (fetchData False 0 (Resolved (Array [])) App_initial))"
  by (simp add: fetchData_def hasUnhealthy_def)

text \<open>
  Claim C7: a successful poll with an empty event set takes the all-healthy branch.
  With the latch read as false it raises the success toast and sets the latch to true,
  and it raises no alert toast whatever the latch is.
\<close>

theorem fetchData_empty_celebrates:
  "fetchData False now (Resolved (Array [])) st
     = (st\<lparr>data := Array [], showConfetti := True\<rparr>, [toast_success])
   \<and> toast_error \<notin> set (snd (fetchData c now (Resolved (Array [])) st))"
  by (simp add: fetchData_def hasUnhealthy_def Let_def)

text \<open>
  Claim C6: the \<^verbatim>\<open>fetchData\<close> that the mount effect and its interval call reads the
  latch of the first render, false. So every successful poll without a stale event
  (the empty set included) raises the success toast and sets the latch to true, from
  any state, also one in which the latch is already true.
\<close>

theorem interval_fetchData_always_celebrates:
  "interval_fetchData = fetchData False
   \<and> (\<not> hasUnhealthy now items \<longrightarrow>
        interval_fetchData now (Resolved (Array items)) st
          = (st\<lparr>data := Array items, showConfetti := True\<rparr>, [toast_success]))
   \<and> interval_fetchData now (Resolved (Array [])) st
          = (st\<lparr>data := Array [], showConfetti := True\<rparr>, [toast_success])"
  by (simp add: interval_fetchData_def render_fetchData_def App_initial_def fetchData_def
      hasUnhealthy_def)

theorem interval_fetchData_always_celebrates_witness:
  "\<not> hasUnhealthy 10000 [\<lparr>name = ''svc1'', type = ''A'', date = Valid 5000\<rparr>]
   \<and> showConfetti (App_initial\<lparr>showConfetti := True\<rparr>)
   \<and> interval_fetchData 10000
        (Resolved (Array [\<lparr>name = ''svc1'', type = ''A'', date = Valid 5000\<rparr>]))
        (App_initial\<lparr>showConfetti := True\<rparr>)
      = (App_initial\<lparr>data := Array [\<lparr>name = ''svc1'', type = ''A'', date = Valid 5000\<rparr>],
                      showConfetti := True\<rparr>,
         [toast_success])"
proof -
  let ?items = "[\<lparr>name = ''svc1'', type = ''A'', date = Valid 5000\<rparr>]"
  have healthy: "\<not> hasUnhealthy 10000 ?items"
    by (simp add: hasUnhealthy_def isHealthy_Valid)
  show ?thesis
    using healthy
      interval_fetchData_always_celebrates
        [of 10000 ?items "App_initial\<lparr>showConfetti := True\<rparr>"]
    by simp
qed

text \<open>
  A run of successful polls without a stale event raises one success toast per poll.
\<close>

lemma polls_all_healthy:
  assumes "list_all (\<lambda>(now, resp). \<exists>items. resp = Resolved (Array items)
             \<and> \<not> hasUnhealthy now items) ps"
  shows "snd (polls ps st) = replicate (length ps) toast_success"
  using assms
proof (induction ps arbitrary: st)
  case Nil
  then show ?case by simp
next
  case (Cons p ps)
  obtain now resp where p: "p = (now, resp)" by (cases p)
  with Cons.prems obtain items where resp: "resp = Resolved (Array items)"
    and healthy: "\<not> hasUnhealthy now items" and rest: "list_all (\<lambda>(now, resp).
      \<exists>items. resp = Resolved (Array items) \<and> \<not> hasUnhealthy now items) ps"
    by auto
  from healthy have step: "interval_fetchData now resp st
      = (st\<lparr>data := Array items, showConfetti := True\<rparr>, [toast_success])"
    by (simp add: resp interval_fetchData_def render_fetchData_def App_initial_def
        fetchData_def)
  from Cons.IH [OF rest, of "st\<lparr>data := Array items, showConfetti := True\<rparr>"] step p
  show ?case by (simp add: case_prod_beta)
qed

text \<open>
  Had the call used the closure of the render that displays the current state, the
  guard would do what it is written for: no toast while the latch is true.
\<close>

lemma render_fetchData_edge_triggered:
  assumes "showConfetti st" and "\<not> hasUnhealthy now items"
  shows "render_fetchData st now (Resolved (Array items)) st = (st\<lparr>data := Array items\<rparr>, [])"
  using assms by (simp add: render_fetchData_def fetchData_def)

text \<open>
  Claim C1 asks for one success toast per transition and none while the latch is
  already true. Two successive polls of the same healthy event, five seconds apart, from
  the initial state: the first sets the latch and raises the toast, the second finds
  the latch true in the state and raises the toast again.
\<close>

theorem polls_celebrate_twice:
  "polls [( 5000, Resolved (Array [\<lparr>name = ''svc1'', type = ''A'', date = Valid 0\<rparr>]))]
     App_initial
   = (App_initial\<lparr>data := Array [\<lparr>name = ''svc1'', type = ''A'', date = Valid 0\<rparr>],
                   showConfetti := True\<rparr>,
      [toast_success])
   \<and> polls [( 5000, Resolved (Array [\<lparr>name = ''svc1'', type = ''A'', date = Valid 0\<rparr>])),
            (10000, Resolved (Array [\<lparr>name = ''svc1'', type = ''A'', date = Valid 0\<rparr>]))]
       App_initial
     = (App_initial\<lparr>data := Array [\<lparr>name = ''svc1'', type = ''A'', date = Valid 0\<rparr>],
                     showConfetti := True\<rparr>,
        [toast_success, toast_success])"
  by (simp add: interval_fetchData_def render_fetchData_def fetchData_def hasUnhealthy_def
      isHealthy_Valid App_initial_def)

subsection \<open>The metrics poll\<close>


subsection \<open>Grouping\<close>

text \<open>
  One step of the loop either throws, when the name is not yet an own key and is a
  member of \<^verbatim>\<open>Object.prototype\<close>, or appends the item to the array of its name.
\<close>

lemma callback_cases:
  "callback g item =
     (if map_of g (name item) = None \<and> name item \<in> set Object_prototype
      then Inl TypeError
      else Inr (AList.update (name item) (group_of g (name item) @ [item]) g))"
  by (simp add: callback_def get_def truthy_def group_of_def AList.update_conv'
      split: option.split)

lemma callback_Inr:
  "callback g item = Inr g' \<Longrightarrow>
     g' = AList.update (name item) (group_of g (name item) @ [item]) g"
  by (simp add: callback_cases split: if_splits)

lemma group_of_update:
  "group_of (AList.update k v g) k' = (if k' = k then v else group_of g k')"
  by (simp add: group_of_def AList.update_conv')

lemma keys_update:
  "map fst (AList.update k v g) = (if k \<in> set (map fst g) then map fst g else map fst g @ [k])"
  by (rule AList.update_keys)

lemma forEach_group_of:
  "forEach items g = Inr g' \<Longrightarrow>
     group_of g' k = group_of g k @ filter (\<lambda>item. name item = k) items"
proof (induction items arbitrary: g)
  case Nil
  then show ?case by simp
next
  case (Cons item rest)
  from Cons.prems obtain g1 where step: "callback g item = Inr g1"
    and rest: "forEach rest g1 = Inr g'"
    by (auto split: sum.splits)
  from Cons.IH [OF rest] callback_Inr [OF step] show ?case
    by (simp add: group_of_update)
qed

lemma forEach_keys:
  "forEach items g = Inr g' \<Longrightarrow>
     map fst g' =
       map fst g @ filter (\<lambda>k. k \<notin> set (map fst g)) (first_appearance (map name items))"
proof (induction items arbitrary: g)
  case Nil
  then show ?case by simp
next
  case (Cons item rest)
  from Cons.prems obtain g1 where step: "callback g item = Inr g1"
    and rest: "forEach rest g1 = Inr g'"
    by (auto split: sum.splits)
  let ?n = "name item"
  let ?fs = "first_appearance (map name rest)"
  have keys1: "map fst g1 = (if ?n \<in> set (map fst g) then map fst g else map fst g @ [?n])"
    using callback_Inr [OF step] by (simp add: keys_update)
  have IH: "map fst g' = map fst g1 @ filter (\<lambda>k. k \<notin> set (map fst g1)) ?fs"
    by (rule Cons.IH [OF rest])
  show ?case
  proof (cases "?n \<in> set (map fst g)")
    case True
    then have "filter (\<lambda>k. k \<notin> set (map fst g)) (removeAll ?n ?fs)
                 = filter (\<lambda>k. k \<notin> set (map fst g)) ?fs"
      by (auto simp: removeAll_filter_not_eq intro: filter_cong)
    with True IH keys1 show ?thesis by simp
  next
    case False
    have "filter (\<lambda>k. k \<notin> set (map fst g)) (removeAll ?n ?fs)
                 = filter (\<lambda>k. k \<notin> set (map fst g @ [?n])) ?fs"
      by (auto simp: removeAll_filter_not_eq intro: filter_cong)
    with False IH keys1 show ?thesis by simp
  qed
qed

lemma count_update_new:
  "k \<notin> set (map fst g) \<Longrightarrow>
     sum_list (map (\<lambda>p. length (snd p)) (AList.update k v g))
       = sum_list (map (\<lambda>p. length (snd p)) g) + length v"
  by (induction g) auto

lemma count_update_old:
  "map_of g k = Some old \<Longrightarrow>
     sum_list (map (\<lambda>p. length (snd p)) (AList.update k (old @ [x]) g))
       = Suc (sum_list (map (\<lambda>p. length (snd p)) g))"
  by (induction g) (auto split: if_splits)

lemma count_callback:
  assumes "callback g item = Inr g'"
  shows "sum_list (map (\<lambda>p. length (snd p)) g') = Suc (sum_list (map (\<lambda>p. length (snd p)) g))"
proof (cases "map_of g (name item)")
  case None
  then have "name item \<notin> set (map fst g)" by (simp add: map_of_eq_None_iff)
  with None callback_Inr [OF assms] show ?thesis
    by (simp add: count_update_new group_of_def)
next
  case (Some old)
  with callback_Inr [OF assms] show ?thesis
    by (simp add: count_update_old group_of_def)
qed

lemma forEach_count:
  "forEach items g = Inr g' \<Longrightarrow>
     sum_list (map (\<lambda>p. length (snd p)) g')
       = sum_list (map (\<lambda>p. length (snd p)) g) + length items"
proof (induction items arbitrary: g)
  case Nil
  then show ?case by simp
next
  case (Cons item rest)
  from Cons.prems obtain g1 where step: "callback g item = Inr g1"
    and rest: "forEach rest g1 = Inr g'"
    by (auto split: sum.splits)
  from Cons.IH [OF rest] count_callback [OF step] show ?case by simp
qed

lemma forEach_distinct:
  "distinct (map fst g) \<Longrightarrow> forEach items g = Inr g' \<Longrightarrow> distinct (map fst g')"
proof (induction items arbitrary: g)
  case Nil
  then show ?case by simp
next
  case (Cons item rest)
  from Cons.prems obtain g1 where step: "callback g item = Inr g1"
    and rest: "forEach rest g1 = Inr g'"
    by (auto split: sum.splits)
  from callback_Inr [OF step] Cons.prems(1) have "distinct (map fst g1)"
    by (simp add: AList.distinct_update)
  from Cons.IH [OF this rest] show ?case .
qed

lemma forEach_Inl_iff:
  "(forEach items g = Inl TypeError) =
     list_ex (\<lambda>item. name item \<in> set Object_prototype \<and> name item \<notin> set (map fst g)) items"
proof (induction items arbitrary: g)
  case Nil
  then show ?case by simp
next
  case (Cons item rest)
  show ?case
  proof (cases "map_of g (name item) = None \<and> name item \<in> set Object_prototype")
    case True
    then show ?thesis by (simp add: callback_cases map_of_eq_None_iff)
  next
    case False
    let ?g1 = "AList.update (name item) (group_of g (name item) @ [item]) g"
    from False have step: "callback g item = Inr ?g1" by (simp add: callback_cases)
    have keys1: "set (map fst ?g1) = insert (name item) (set (map fst g))"
      by (auto simp: keys_update)
    from False have own: "name item \<in> set (map fst g) \<or> name item \<notin> set Object_prototype"
      by (simp add: map_of_eq_None_iff; blast)
    have same: "(name i \<in> set Object_prototype \<and> name i \<notin> set (map fst ?g1))
                  = (name i \<in> set Object_prototype \<and> name i \<notin> set (map fst g))" for i
      using own unfolding keys1 by (cases "name i = name item") (simp; blast)+
    from own have here: "\<not> (name item \<in> set Object_prototype \<and> name item \<notin> set (map fst g))"
      by blast
    from Cons.IH [of ?g1] have "(forEach rest ?g1 = Inl TypeError) =
        list_ex (\<lambda>i. name i \<in> set Object_prototype \<and> name i \<notin> set (map fst g)) rest"
      unfolding same .
    with step here show ?thesis by simp blast
  qed
qed

lemma set_first_appearance: "set (first_appearance xs) = set xs"
  by (induction xs) auto

lemma distinct_first_appearance: "distinct (first_appearance xs)"
  by (induction xs) (auto simp: distinct_removeAll)

text \<open>
  Where no event bears the name of a member of \<^verbatim>\<open>Object.prototype\<close>, \<open>groupByName\<close>
  returns, and what it returns is a partition of the events by name: the group sizes
  add up to the number of events, the keys are distinct and are the names that occur,
  and the group of a name is the subsequence of the events with that name.
\<close>

lemma groupByName_returns:
  assumes "data st = Array items"
    and "list_all (\<lambda>item. name item \<notin> set Object_prototype) items"
  shows "\<exists>g. groupByName st = Inr g"
proof -
  from assms(2) have "\<not> list_ex (\<lambda>item. name item \<in> set Object_prototype
      \<and> name item \<notin> set (map fst ([] :: groups))) items"
    by (auto simp: list_all_iff list_ex_iff)
  then have "forEach items [] \<noteq> Inl TypeError"
    by (simp only: forEach_Inl_iff not_False_eq_True)
  then obtain g where "forEach items [] = Inr g"
    by (cases "forEach items []") (auto intro: js_error.exhaust)
  with assms(1) show ?thesis by (simp add: groupByName_def)
qed

lemma groupByName_partition:
  assumes "data st = Array items" and "groupByName st = Inr g"
  shows "sum_list (map (\<lambda>p. length (snd p)) g) = length items"
    and "distinct (map fst g)"
    and "map fst g = first_appearance (map name items)"
    and "group_of g k = filter (\<lambda>item. name item = k) items"
proof -
  from assms have run: "forEach items [] = Inr g" by (simp add: groupByName_def)
  from forEach_count [OF run] show "sum_list (map (\<lambda>p. length (snd p)) g) = length items"
    by simp
  from forEach_distinct [OF _ run] show "distinct (map fst g)" by simp
  from forEach_keys [OF run] show "map fst g = first_appearance (map name items)" by simp
  from forEach_group_of [OF run, of k] show "group_of g k = filter (\<lambda>item. name item = k) items"
    by (simp add: group_of_def)
qed

text \<open>
  Claim C5 promises a partition for any sequence of events. An event named
  \<^verbatim>\<open>constructor\<close>: \<^verbatim>\<open>groups["constructor"]\<close> is the inherited function, which is truthy,
  so no array is created, and \<^verbatim>\<open>.push\<close> on it throws. \<open>groupByName\<close> returns no
  grouping at all.
\<close>

theorem groupByName_constructor_throws:
  "groupByName
     (App_initial\<lparr>data := Array [\<lparr>name = ''constructor'', type = ''A'', date = Valid 0\<rparr>]\<rparr>)
   = Inl TypeError"
  by (simp add: groupByName_def callback_def get_def truthy_def Object_prototype_def)

text \<open>
  Claim C9, as the code has it. \<^verbatim>\<open>Object.keys\<close> of the grouping lists the names that
  are array indices first, in ascending numeric order, and then the other names in the
  order of their first appearance; when no name is an array index, the keys are in
  the order of first appearance.
\<close>

theorem Object_keys_groupByName:
  assumes "data st = Array items" and "groupByName st = Inr g"
  shows "Object_keys g
           = sort_key ToNumber (filter is_array_index (first_appearance (map name items)))
             @ filter (\<lambda>key. \<not> is_array_index key) (first_appearance (map name items))
         \<and> (list_all (\<lambda>item. \<not> is_array_index (name item)) items \<longrightarrow>
              Object_keys g = first_appearance (map name items))"
proof -
  let ?names = "first_appearance (map name items)"
  have keys: "map fst g = ?names"
    by (rule groupByName_partition(3) [OF assms])
  have general: "Object_keys g
      = sort_key ToNumber (filter is_array_index ?names)
        @ filter (\<lambda>key. \<not> is_array_index key) ?names"
    by (simp add: Object_keys_def keys)
  have "Object_keys g = ?names"
    if none: "list_all (\<lambda>item. \<not> is_array_index (name item)) items"
  proof -
    from none have "\<forall>key \<in> set ?names. \<not> is_array_index key"
      by (auto simp: set_first_appearance list_all_iff)
    then have "filter is_array_index ?names = []"
      and "filter (\<lambda>key. \<not> is_array_index key) ?names = ?names"
      by (simp_all add: filter_empty_conv)
    with general show ?thesis by simp
  qed
  with general show ?thesis by blast
qed

theorem Object_keys_groupByName_witness:
  "groupByName
     (App_initial\<lparr>data := Array [\<lparr>name = ''svc2'', type = ''A'', date = Valid 0\<rparr>,
                                  \<lparr>name = ''svc1'', type = ''B'', date = Valid 0\<rparr>,
                                  \<lparr>name = ''svc2'', type = ''C'', date = Valid 0\<rparr>]\<rparr>)
   = Inr [(''svc2'', [\<lparr>name = ''svc2'', type = ''A'', date = Valid 0\<rparr>,
                      \<lparr>name = ''svc2'', type = ''C'', date = Valid 0\<rparr>]),
          (''svc1'', [\<lparr>name = ''svc1'', type = ''B'', date = Valid 0\<rparr>])]
   \<and> Object_keys
        [(''svc2'', [\<lparr>name = ''svc2'', type = ''A'', date = Valid 0\<rparr>,
                     \<lparr>name = ''svc2'', type = ''C'', date = Valid 0\<rparr>]),
         (''svc1'', [\<lparr>name = ''svc1'', type = ''B'', date = Valid 0\<rparr>])]
      = [''svc2'', ''svc1'']"
proof -
  let ?items = "[\<lparr>name = ''svc2'', type = ''A'', date = Valid 0\<rparr>,
                 \<lparr>name = ''svc1'', type = ''B'', date = Valid 0\<rparr>,
                 \<lparr>name = ''svc2'', type = ''C'', date = Valid 0\<rparr>]"
  let ?st = "App_initial\<lparr>data := Array ?items\<rparr>"
  let ?g = "[(''svc2'', [\<lparr>name = ''svc2'', type = ''A'', date = Valid 0\<rparr>,
                         \<lparr>name = ''svc2'', type = ''C'', date = Valid 0\<rparr>]),
             (''svc1'', [\<lparr>name = ''svc1'', type = ''B'', date = Valid 0\<rparr>])]"
  have stored: "data ?st = Array ?items" by simp
  have grouped: "groupByName ?st = Inr ?g"
    by (simp add: groupByName_def callback_def get_def truthy_def Object_prototype_def)
  have plain: "list_all (\<lambda>item. \<not> is_array_index (name item)) ?items"
    by (simp add: is_array_index_def is_digit_def)
  from Object_keys_groupByName [OF stored grouped] plain
  have "Object_keys ?g = first_appearance (map name ?items)" by blast
  with grouped show ?thesis by simp
qed

text \<open>
  The claim C9 as stated, keys in the order of first appearance for any input, fails
  for the names \<^verbatim>\<open>"2"\<close> and \<^verbatim>\<open>"1"\<close> arriving in that order: the keys are listed as
  \<^verbatim>\<open>"1"\<close>, \<^verbatim>\<open>"2"\<close>.
\<close>

theorem Object_keys_numeric_names_counterexample:
  "groupByName
     (App_initial\<lparr>data := Array [\<lparr>name = ''2'', type = ''A'', date = Valid 0\<rparr>,
                                  \<lparr>name = ''1'', type = ''B'', date = Valid 0\<rparr>]\<rparr>)
   = Inr [(''2'', [\<lparr>name = ''2'', type = ''A'', date = Valid 0\<rparr>]),
          (''1'', [\<lparr>name = ''1'', type = ''B'', date = Valid 0\<rparr>])]
   \<and> Object_keys [(''2'', [\<lparr>name = ''2'', type = ''A'', date = Valid 0\<rparr>]),
                  (''1'', [\<lparr>name = ''1'', type = ''B'', date = Valid 0\<rparr>])]
      = [''1'', ''2'']
   \<and> first_appearance
        (map name [\<lparr>name = ''2'', type = ''A'', date = Valid 0\<rparr>,
                   \<lparr>name = ''1'', type = ''B'', date = Valid 0\<rparr>])
      = [''2'', ''1'']"
  by (simp add: groupByName_def callback_def get_def truthy_def Object_prototype_def
      Object_keys_def is_array_index_def is_digit_def ToNumber_def digit_value_def)

end
